theory Spec2Isabelle
  imports Main "HOL-Library.Word"
begin

section \<open>The to-do store of \<^verbatim>\<open>main.go\<close>\<close>

text \<open>
  The program keeps one \<^verbatim>\<open>TodoList\<close>, guarded by a mutex that every method holds from
  its first statement to its return. A method therefore runs atomically with respect to
  the store, and is modelled as a function from the store and the outside world to the
  new store and the new world. The mutex itself carries no data and is left out.

  Go's \<^verbatim>\<open>int\<close> is the 64-bit two's complement integer of the usual targets:
  \<^verbatim>\<open>t.idCounter++\<close> wraps around, and comparisons of ids are signed (\<open>sint\<close>).
  A \<^verbatim>\<open>time.Time\<close> is modelled by the instant it denotes, and \<^verbatim>\<open>time.Now()\<close> is an
  argument of the one method that reads the clock.
\<close>

type_synonym Time = int

record Todo =
  ID :: "64 word"
  Title :: string
  Completed :: bool
  CreatedAt :: Time

record TodoList =
  todos :: "Todo list"
  idCounter :: "64 word"
  changed :: bool

text \<open>The zero value \<^verbatim>\<open>&TodoList{}\<close> that \<^verbatim>\<open>main\<close> constructs.\<close>

definition TodoList_zero :: TodoList where
  "TodoList_zero = \<lparr>todos = [], idCounter = 0, changed = False\<rparr>"

subsection \<open>The outside world\<close>

text \<open>
  An \<^verbatim>\<open>error\<close> value is observed by the program in two ways only: through
  \<^verbatim>\<open>os.IsNotExist(err)\<close> and through the text that \<^verbatim>\<open>fmt.Println\<close> prints for it.
\<close>

datatype error = Err (IsNotExist: bool) (Error: string)

text \<open>
  The world holds the files (path to bytes) and the lines written to standard output.
\<close>

record world =
  files :: "string \<rightharpoonup> string"
  stdout :: "string list"

definition Println :: "string \<Rightarrow> world \<Rightarrow> world" where
  "Println line w = w\<lparr>stdout := stdout w @ [line]\<rparr>"

text \<open>
  \<^verbatim>\<open>os.Create\<close> truncates or creates the file, unless the system refuses (\<open>fault\<close>).
  \<^verbatim>\<open>os.Open\<close> fails with a not-exist error on a missing path, may be refused on an
  existing one, and otherwise gives access to the bytes of the file.
\<close>

definition os_Create :: "error option \<Rightarrow> string \<Rightarrow> world \<Rightarrow> error + world" where
  "os_Create fault name w =
     (case fault of
        Some err \<Rightarrow> Inl err
      | None \<Rightarrow> Inr (w\<lparr>files := (files w)(name \<mapsto> [])\<rparr>))"

definition os_Open :: "error option \<Rightarrow> string \<Rightarrow> world \<Rightarrow> error + string" where
  "os_Open fault name w =
     (case files w name of
        None \<Rightarrow> Inl (Err True (''open '' @ name @ '': no such file or directory''))
      | Some data \<Rightarrow> (case fault of Some err \<Rightarrow> Inl err | None \<Rightarrow> Inr data))"

text \<open>
  A write to the file just created stores the bytes, or, when it fails, a prefix of them.
\<close>

definition file_Write :: "(nat \<times> error) option \<Rightarrow> string \<Rightarrow> string \<Rightarrow> world \<Rightarrow> error option \<times> world" where
  "file_Write fault name data w =
     (let old = (case files w name of None \<Rightarrow> [] | Some bytes \<Rightarrow> bytes) in
      case fault of
        Some (k, err) \<Rightarrow> (Some err, w\<lparr>files := (files w)(name \<mapsto> old @ take k data)\<rparr>)
      | None \<Rightarrow> (None, w\<lparr>files := (files w)(name \<mapsto> old @ data)\<rparr>))"

text \<open>
  Package \<^verbatim>\<open>encoding/json\<close> is not part of the repository; it is a parameter of the model.
  \<open>Marshal\<close> gives the bytes that \<^verbatim>\<open>Encoder.Encode\<close> writes for a slice, or an error.
  \<open>Unmarshal\<close> is \<^verbatim>\<open>Decoder.Decode(&t.todos)\<close> on the bytes of a file: it receives the
  slice by reference, so it returns the slice as it leaves it together with its error.
  The package documents that on a value of the wrong type it skips the field, completes
  the decoding as best it can and returns the error; the slice then holds what was decoded.
  A nil slice and an empty one are both the list \<open>[]\<close>.
\<close>

record json =
  Marshal :: "Todo list \<Rightarrow> error + string"
  Unmarshal :: "string \<Rightarrow> Todo list \<Rightarrow> error option \<times> Todo list"

definition Encode :: "json \<Rightarrow> (nat \<times> error) option \<Rightarrow> string \<Rightarrow> Todo list \<Rightarrow> world \<Rightarrow> error option \<times> world" where
  "Encode js fault name v w =
     (case Marshal js v of
        Inl err \<Rightarrow> (Some err, w)
      | Inr data \<Rightarrow> file_Write fault name data w)"

subsection \<open>The methods of the store\<close>

definition CreateTodo :: "string \<Rightarrow> Time \<Rightarrow> TodoList \<Rightarrow> world \<Rightarrow> TodoList \<times> world" where
  "CreateTodo title now t w =
     (let t1 = t\<lparr>idCounter := idCounter t + 1\<rparr>;
          newTodo = \<lparr>ID = idCounter t1, Title = title, Completed = False, CreatedAt = now\<rparr>;
          t2 = t1\<lparr>todos := todos t1 @ [newTodo]\<rparr>;
          t3 = t2\<lparr>changed := True\<rparr>
      in (t3, Println ''To-Do added successfully.'' w))"

text \<open>
  The loop \<^verbatim>\<open>for i, todo := range t.todos { if todo.ID == id { ...; return } }\<close> of
  \<^verbatim>\<open>UpdateTodo\<close> and \<^verbatim>\<open>DeleteTodo\<close>: the index at which the body runs, if any.
\<close>

fun range_ID :: "64 word \<Rightarrow> Todo list \<Rightarrow> nat option" where
  "range_ID id' [] = None"
| "range_ID id' (todo # rest) =
     (if ID todo = id' then Some 0 else map_option Suc (range_ID id' rest))"

definition UpdateTodo :: "64 word \<Rightarrow> string \<Rightarrow> bool \<Rightarrow> TodoList \<Rightarrow> world \<Rightarrow> TodoList \<times> world" where
  "UpdateTodo id' newTitle completed t w =
     (case range_ID id' (todos t) of
        Some i \<Rightarrow>
          (let ts1 = (if newTitle \<noteq> [] then (todos t)[i := (todos t ! i)\<lparr>Title := newTitle\<rparr>]
                      else todos t);
               ts2 = ts1[i := (ts1 ! i)\<lparr>Completed := completed\<rparr>]
           in (t\<lparr>todos := ts2, changed := True\<rparr>, Println ''To-Do updated successfully.'' w))
      | None \<Rightarrow> (t, Println ''To-Do not found.'' w))"

definition DeleteTodo :: "64 word \<Rightarrow> TodoList \<Rightarrow> world \<Rightarrow> TodoList \<times> world" where
  "DeleteTodo id' t w =
     (case range_ID id' (todos t) of
        Some i \<Rightarrow>
          (t\<lparr>todos := take i (todos t) @ drop (i + 1) (todos t), changed := True\<rparr>,
           Println ''To-Do deleted successfully.'' w)
      | None \<Rightarrow> (t, Println ''To-Do not found.'' w))"

text \<open>What the system does to one call of \<^verbatim>\<open>SaveToFile\<close>.\<close>

record save_io =
  create_fault :: "error option"
  write_fault :: "(nat \<times> error) option"

definition SaveToFile :: "json \<Rightarrow> save_io \<Rightarrow> string \<Rightarrow> TodoList \<Rightarrow> world \<Rightarrow> error option \<times> TodoList \<times> world" where
  "SaveToFile js io filename t w =
     (case os_Create (create_fault io) filename w of
        Inl err \<Rightarrow> (Some err, t, w)
      | Inr w1 \<Rightarrow>
          (case Encode js (write_fault io) filename (todos t) w1 of
             (Some err, w2) \<Rightarrow> (Some err, t, w2)
           | (None, w2) \<Rightarrow>
               (None, t\<lparr>changed := False\<rparr>, Println ''To-Do list saved to file.'' w2)))"

definition LoadFromFile :: "json \<Rightarrow> error option \<Rightarrow> string \<Rightarrow> TodoList \<Rightarrow> world \<Rightarrow> error option \<times> TodoList \<times> world" where
  "LoadFromFile js fault filename t w =
     (case os_Open fault filename w of
        Inl err \<Rightarrow> (Some err, t, w)
      | Inr data \<Rightarrow>
          (case Unmarshal js data (todos t) of
             (Some err, ts) \<Rightarrow> (Some err, t\<lparr>todos := ts\<rparr>, w)
           | (None, ts) \<Rightarrow> (None, t\<lparr>todos := ts\<rparr>, Println ''To-Do list loaded from file.'' w)))"

subsection \<open>The auto-save loop and the start of \<^verbatim>\<open>main\<close>\<close>

text \<open>
  The body of \<^verbatim>\<open>case <-ticker.C\<close>: the flag is read under the lock into
  \<^verbatim>\<open>shouldSave\<close>, and \<^verbatim>\<open>SaveToFile\<close> is called only when it was set; its error
  is printed and the loop goes on.
\<close>

definition AutoSave_tick :: "json \<Rightarrow> save_io \<Rightarrow> string \<Rightarrow> TodoList \<Rightarrow> world \<Rightarrow> TodoList \<times> world" where
  "AutoSave_tick js io filename t w =
     (let shouldSave = changed t in
      if shouldSave then
        (case SaveToFile js io filename t w of
           (Some err, t1, w1) \<Rightarrow> (t1, Println (''Error saving file: '' @ Error err) w1)
         | (None, t1, w1) \<Rightarrow> (t1, w1))
      else (t, w))"

text \<open>
  What the \<^verbatim>\<open>select\<close> of \<^verbatim>\<open>AutoSave\<close> receives: a tick (with what the system does to
  the save it may start) or the shutdown signal. The loop is run on a list of such
  events; the first component of the result tells whether it has returned.
\<close>

datatype event = Tick save_io | Done

fun AutoSave :: "json \<Rightarrow> string \<Rightarrow> event list \<Rightarrow> TodoList \<Rightarrow> world \<Rightarrow> bool \<times> TodoList \<times> world" where
  "AutoSave js filename [] t w = (False, t, w)"
| "AutoSave js filename (Tick io # evs) t w =
     (case AutoSave_tick js io filename t w of (t1, w1) \<Rightarrow> AutoSave js filename evs t1 w1)"
| "AutoSave js filename (Done # evs) t w = (True, t, Println ''Auto-save stopped.'' w)"

text \<open>
  The first statements of \<^verbatim>\<open>main\<close>, up to the start of the auto-save goroutine: the
  store is constructed and loaded, and a load error other than not-exist is printed.
  No path of these statements leaves \<^verbatim>\<open>main\<close>.
\<close>

definition main_load :: "json \<Rightarrow> error option \<Rightarrow> world \<Rightarrow> TodoList \<times> world" where
  "main_load js fault w =
     (let todoList = TodoList_zero;
          filename = ''todos.json''
      in case LoadFromFile js fault filename todoList w of
           (Some err, t, w1) \<Rightarrow>
             (if \<not> IsNotExist err then (t, Println (''Error loading file: '' @ Error err) w1)
              else (t, w1))
         | (None, t, w1) \<Rightarrow> (t, w1))"

subsection \<open>Sequences of operations\<close>

text \<open>
  The operations that the menu loop and the auto-save loop perform on the store, each
  with what it reads from the outside (the clock, the faults of the system).
\<close>

datatype op =
    Create string Time
  | Update "64 word" string bool
  | Delete "64 word"
  | Save string save_io
  | Load string "error option"

fun step :: "json \<Rightarrow> op \<Rightarrow> TodoList \<times> world \<Rightarrow> TodoList \<times> world" where
  "step js (Create title now) (t, w) = CreateTodo title now t w"
| "step js (Update id' newTitle completed) (t, w) = UpdateTodo id' newTitle completed t w"
| "step js (Delete id') (t, w) = DeleteTodo id' t w"
| "step js (Save filename io) (t, w) = snd (SaveToFile js io filename t w)"
| "step js (Load filename fault) (t, w) = snd (LoadFromFile js fault filename t w)"

fun run :: "json \<Rightarrow> op list \<Rightarrow> TodoList \<times> world \<Rightarrow> TodoList \<times> world" where
  "run js [] s = s"
| "run js (x # xs) s = run js xs (step js x s)"

text \<open>The ids that the \<^verbatim>\<open>Create\<close> operations of a run give to their new records, in order.\<close>

fun assigned :: "json \<Rightarrow> op list \<Rightarrow> TodoList \<times> world \<Rightarrow> 64 word list" where
  "assigned js [] s = []"
| "assigned js (Create title now # xs) s =
     ID (last (todos (fst (step js (Create title now) s)))) # assigned js xs (step js (Create title now) s)"
| "assigned js (x # xs) s = assigned js xs (step js x s)"

fun creates :: "op list \<Rightarrow> nat" where
  "creates [] = 0"
| "creates (Create title now # xs) = Suc (creates xs)"
| "creates (x # xs) = creates xs"

subsection \<open>Properties of stores and of runs\<close>

fun is_Load :: "op \<Rightarrow> bool" where
  "is_Load (Load filename fault) = True"
| "is_Load x = False"

text \<open>The invariant of the store: ids are unique and none is above the counter.\<close>

definition store_inv :: "TodoList \<Rightarrow> bool" where
  "store_inv t =
     (distinct (map ID (todos t)) \<and> (\<forall>x \<in> set (todos t). sint (ID x) \<le> sint (idCounter t)))"

text \<open>
  Every \<^verbatim>\<open>Load\<close> of the run leaves in the store a sequence with unique ids, none above
  the counter of the store it was loaded into.
\<close>

fun loads_keep :: "json \<Rightarrow> op list \<Rightarrow> TodoList \<times> world \<Rightarrow> bool" where
  "loads_keep js [] s = True"
| "loads_keep js (Load filename fault # xs) s =
     (store_inv (fst (step js (Load filename fault) s))
      \<and> loads_keep js xs (step js (Load filename fault) s))"
| "loads_keep js (x # xs) s = loads_keep js xs (step js x s)"

subsection \<open>What \<^verbatim>\<open>encoding/json\<close> does to a title\<close>

text \<open>
  The package documents that it writes a string coerced to valid UTF-8, each invalid
  byte replaced by the replacement character U+FFFD (the bytes EF BF BD); everything
  else of a record is written so that it reads back as it was. The definitions below
  follow that documentation and the table of well-formed byte sequences of package
  \<^verbatim>\<open>unicode/utf8\<close>; a title is a list of bytes.

  \<open>rune_size\<close> is the length of the well-formed sequence at the head of the bytes, and 0
  where \<^verbatim>\<open>utf8.DecodeRuneInString\<close> reports an invalid byte.
\<close>

definition byte_in :: "nat \<Rightarrow> nat \<Rightarrow> char \<Rightarrow> bool" where
  "byte_in lo hi b = (lo \<le> of_char b \<and> of_char b \<le> hi)"

fun rune_size :: "string \<Rightarrow> nat" where
  "rune_size [] = 0"
| "rune_size (b0 # rest) =
     (if byte_in 0x00 0x7F b0 then 1
      else if byte_in 0xC2 0xDF b0 then
        (case rest of
           b1 # _ \<Rightarrow> if byte_in 0x80 0xBF b1 then 2 else 0
         | _ \<Rightarrow> 0)
      else if byte_in 0xE0 0xEF b0 then
        (case rest of
           b1 # b2 # _ \<Rightarrow>
             if byte_in (if b0 = CHR 0xE0 then 0xA0 else 0x80)
                        (if b0 = CHR 0xED then 0x9F else 0xBF) b1
                \<and> byte_in 0x80 0xBF b2
             then 3 else 0
         | _ \<Rightarrow> 0)
      else if byte_in 0xF0 0xF4 b0 then
        (case rest of
           b1 # b2 # b3 # _ \<Rightarrow>
             if byte_in (if b0 = CHR 0xF0 then 0x90 else 0x80)
                        (if b0 = CHR 0xF4 then 0x8F else 0xBF) b1
                \<and> byte_in 0x80 0xBF b2 \<and> byte_in 0x80 0xBF b3
             then 4 else 0
         | _ \<Rightarrow> 0)
      else 0)"

text \<open>
  The encoder's walk over a string: a well-formed sequence is kept (the first argument
  counts the bytes of it still to copy), an invalid byte becomes EF BF BD.
  \<open>valid_from\<close> is the same walk as a test, \<^verbatim>\<open>utf8.ValidString\<close>.
\<close>

fun coerce_from :: "nat \<Rightarrow> string \<Rightarrow> string" where
  "coerce_from k [] = []"
| "coerce_from 0 (b # rest) =
     (case rune_size (b # rest) of
        0 \<Rightarrow> [CHR 0xEF, CHR 0xBF, CHR 0xBD] @ coerce_from 0 rest
      | Suc n \<Rightarrow> b # coerce_from n rest)"
| "coerce_from (Suc k) (b # rest) = b # coerce_from k rest"

fun valid_from :: "nat \<Rightarrow> string \<Rightarrow> bool" where
  "valid_from k [] = True"
| "valid_from 0 (b # rest) =
     (case rune_size (b # rest) of
        0 \<Rightarrow> False
      | Suc n \<Rightarrow> valid_from n rest)"
| "valid_from (Suc k) (b # rest) = valid_from k rest"

definition json_coerce :: "string \<Rightarrow> string" where
  "json_coerce s = coerce_from 0 s"

definition ValidString :: "string \<Rightarrow> bool" where
  "ValidString s = valid_from 0 s"

definition coerce_todo :: "Todo \<Rightarrow> Todo" where
  "coerce_todo x = x\<lparr>Title := json_coerce (Title x)\<rparr>"

text \<open>
  A codec that behaves as the package documents: whatever slice the encoder accepts, the
  decoder reads its bytes into an empty slice as the same records with coerced titles.
\<close>

definition json_lawful :: "json \<Rightarrow> bool" where
  "json_lawful js =
     (\<forall>ts data. Marshal js ts = Inr data \<longrightarrow> Unmarshal js data [] = (None, map coerce_todo ts))"

subsection \<open>Sample data\<close>

text \<open>
  One record, the document that \<^verbatim>\<open>encoding/json\<close> writes for it, and the same document
  with a string where the boolean belongs. \<open>json_sample\<close> is the behaviour of the package
  on these: the first document decodes to the record; on the second, decoded into the
  empty slice of a new store, the package reports the mismatch after it has stored the
  element with the other three fields. Slices and documents outside this table are
  answered with an error, the slice left alone.
\<close>

definition sample_todos :: "Todo list" where
  "sample_todos = [\<lparr>ID = 1, Title = ''Buy milk'', Completed = False, CreatedAt = 0\<rparr>]"

definition sample_text :: string where
  \<open>sample_text =
     ''[{"id":1,"title":"Buy milk","completed":false,"created_at":"1970-01-01T00:00:00Z"}]\<newline>''\<close>

definition mismatch_text :: string where
  \<open>mismatch_text =
     ''[{"id":1,"title":"Buy milk","completed":"no","created_at":"1970-01-01T00:00:00Z"}]\<newline>''\<close>

definition json_sample :: json where
  "json_sample =
     \<lparr>Marshal = (\<lambda>v. if v = sample_todos then Inr sample_text
                      else Inl (Err False ''json: slice outside the table'')),
      Unmarshal = (\<lambda>data target.
         if data = sample_text then (None, sample_todos)
         else if data = mismatch_text \<and> target = [] then
           (Some (Err False
              ''json: cannot unmarshal string into Go struct field Todo.completed of type bool''),
            sample_todos)
         else (Some (Err False ''json: document outside the table''), target))\<rparr>"

text \<open>
  A record whose title is the single byte FF, as \<^verbatim>\<open>main\<close> reads it from a terminal
  that is not in UTF-8, the document that the package writes for it, in which the title
  is the escape of U+FFFD (a backslash and the characters ufffd), and what the package
  reads from that document.
\<close>

definition ff_todos :: "Todo list" where
  "ff_todos = [\<lparr>ID = 1, Title = [CHR 0xFF], Completed = False, CreatedAt = 0\<rparr>]"

definition ff_text :: string where
  \<open>ff_text =
     ''[{"id":1,"title":"'' @ [CHR 0x5C] @
     ''ufffd","completed":false,"created_at":"1970-01-01T00:00:00Z"}]\<newline>''\<close>

definition ff_loaded :: "Todo list" where
  "ff_loaded = [\<lparr>ID = 1, Title = [CHR 0xEF, CHR 0xBF, CHR 0xBD], Completed = False, CreatedAt = 0\<rparr>]"

definition json_ff :: json where
  "json_ff =
     \<lparr>Marshal = (\<lambda>v. if v = ff_todos then Inr ff_text
                      else Inl (Err False ''json: slice outside the table'')),
      Unmarshal = (\<lambda>data target.
         if data = ff_text then (None, ff_loaded)
         else (Some (Err False ''json: document outside the table''), target))\<rparr>"

definition ff_store :: TodoList where
  "ff_store = \<lparr>todos = ff_todos, idCounter = 1, changed = True\<rparr>"

definition world_empty :: world where
  "world_empty = \<lparr>files = Map.empty, stdout = []\<rparr>"

definition no_fault :: save_io where
  "no_fault = \<lparr>create_fault = None, write_fault = None\<rparr>"

text \<open>
  The world that a first run of the program leaves behind after one task was created and
  saved, and the world in which the next process starts: the same files, nothing printed.
\<close>

definition earlier_run :: world where
  "earlier_run =
     snd (run json_sample [Create ''Buy milk'' 0, Save ''todos.json'' no_fault]
            (TodoList_zero, world_empty))"

definition restart :: "world \<Rightarrow> world" where
  "restart w = w\<lparr>stdout := []\<rparr>"

text \<open>A world whose \<^verbatim>\<open>todos.json\<close> was edited by hand into the second document.\<close>

definition edited_world :: world where
  "edited_world = \<lparr>files = [''todos.json'' \<mapsto> mismatch_text], stdout = []\<rparr>"

text \<open>Three creations around a deletion, and the store after two creations.\<close>

definition scenario :: "op list" where
  "scenario = [Create ''Buy milk'' 0, Create ''Walk dog'' 1, Delete 1, Create ''Pay bills'' 2]"

definition two_todos :: TodoList where
  "two_todos =
     fst (run json_sample [Create ''Buy milk'' 0, Create ''Walk dog'' 1] (TodoList_zero, world_empty))"

section \<open>Facts about the methods\<close>

lemmas model_defs =
  TodoList_zero_def Println_def os_Create_def os_Open_def file_Write_def Encode_def
  CreateTodo_def UpdateTodo_def DeleteTodo_def SaveToFile_def LoadFromFile_def
  AutoSave_tick_def main_load_def Let_def

lemmas sample_defs =
  sample_todos_def sample_text_def mismatch_text_def json_sample_def world_empty_def
  no_fault_def restart_def edited_world_def

subsection \<open>The search loop\<close>

lemma range_ID_None: "(range_ID i ts = None) = (i \<notin> ID ` set ts)"
  by (induction ts) auto

lemma range_ID_first:
  "i \<in> ID ` set ts \<Longrightarrow> range_ID i ts = Some (length (takeWhile (\<lambda>x. ID x \<noteq> i) ts))"
  by (induction ts) auto

lemma range_ID_Some:
  "range_ID i ts = Some k \<Longrightarrow> k < length ts \<and> ID (ts ! k) = i \<and> (\<forall>j<k. ID (ts ! j) \<noteq> i)"
proof (induction ts arbitrary: k)
  case Nil
  then show ?case by simp
next
  case (Cons a ts)
  show ?case
  proof (cases "ID a = i")
    case True
    with Cons.prems show ?thesis by simp
  next
    case False
    with Cons.prems obtain k' where k: "range_ID i ts = Some k'" "k = Suc k'" by auto
    from Cons.IH[OF k(1)] False k(2) show ?thesis by (auto simp: nth_Cons')
  qed
qed

lemma range_ID_removed:
  "count_list (map ID ts) i \<le> 1 \<Longrightarrow> range_ID i ts = Some k
   \<Longrightarrow> range_ID i (take k ts @ drop (Suc k) ts) = None"
proof (induction ts arbitrary: k)
  case Nil
  then show ?case by simp
next
  case (Cons a ts)
  show ?case
  proof (cases "ID a = i")
    case True
    with Cons.prems have "count_list (map ID ts) i = 0" "k = 0" by simp_all
    then show ?thesis by (simp add: range_ID_None count_list_0_iff)
  next
    case False
    with Cons.prems obtain k' where k: "range_ID i ts = Some k'" "k = Suc k'" by auto
    have "count_list (map ID ts) i \<le> 1" using Cons.prems(1) False by simp
    from Cons.IH[OF this k(1)] False k(2) show ?thesis by simp
  qed
qed

subsection \<open>Each method in closed form\<close>

lemma CreateTodo_eq:
  "CreateTodo title now t w =
     (\<lparr>todos = todos t @ [\<lparr>ID = idCounter t + 1, Title = title, Completed = False, CreatedAt = now\<rparr>],
       idCounter = idCounter t + 1, changed = True\<rparr>,
      Println ''To-Do added successfully.'' w)"
  by (simp add: CreateTodo_def Let_def)

lemma UpdateTodo_None:
  "range_ID i (todos t) = None \<Longrightarrow>
   UpdateTodo i newTitle completed t w = (t, Println ''To-Do not found.'' w)"
  by (simp add: UpdateTodo_def)

lemma UpdateTodo_Some:
  "range_ID i (todos t) = Some k \<Longrightarrow>
   UpdateTodo i newTitle completed t w =
     (t\<lparr>todos := (todos t)[k := (todos t ! k)\<lparr>Title := (if newTitle = [] then Title (todos t ! k)
                                                        else newTitle),
                                              Completed := completed\<rparr>],
        changed := True\<rparr>,
      Println ''To-Do updated successfully.'' w)"
  by (frule range_ID_Some) (simp add: UpdateTodo_def Let_def)

lemma DeleteTodo_None:
  "range_ID i (todos t) = None \<Longrightarrow> DeleteTodo i t w = (t, Println ''To-Do not found.'' w)"
  by (simp add: DeleteTodo_def)

lemma DeleteTodo_Some:
  "range_ID i (todos t) = Some k \<Longrightarrow>
   DeleteTodo i t w =
     (t\<lparr>todos := take k (todos t) @ drop (Suc k) (todos t), changed := True\<rparr>,
      Println ''To-Do deleted successfully.'' w)"
  by (simp add: DeleteTodo_def)

lemma SaveToFile_cases:
  "SaveToFile js io filename t w = (r, t', w') \<Longrightarrow>
     (r \<noteq> None \<and> t' = t) \<or> (r = None \<and> t' = t\<lparr>changed := False\<rparr>)"
  by (auto simp: SaveToFile_def split: sum.splits prod.splits option.splits)

lemma SaveToFile_None:
  "SaveToFile js io filename t w = (None, t', w') \<Longrightarrow> t' = t\<lparr>changed := False\<rparr>"
  by (drule SaveToFile_cases) simp

lemma SaveToFile_Some:
  "SaveToFile js io filename t w = (Some err, t', w') \<Longrightarrow> t' = t"
  by (drule SaveToFile_cases) simp

lemma SaveToFile_written:
  assumes "SaveToFile js io filename t w = (None, t', w')"
  shows "\<exists>data. Marshal js (todos t) = Inr data \<and> files w' filename = Some data"
  using assms
  by (auto simp: SaveToFile_def Encode_def file_Write_def os_Create_def Println_def Let_def
           split: sum.splits prod.splits option.splits)

lemma LoadFromFile_store:
  "LoadFromFile js fault filename t w = (r, t', w') \<Longrightarrow>
     idCounter t' = idCounter t \<and> changed t' = changed t"
  by (auto simp: LoadFromFile_def split: sum.splits prod.splits option.splits)

lemma two_todos_eq:
  "two_todos = \<lparr>todos = [\<lparr>ID = 1, Title = ''Buy milk'', Completed = False, CreatedAt = 0\<rparr>,
                          \<lparr>ID = 2, Title = ''Walk dog'', Completed = False, CreatedAt = 1\<rparr>],
                 idCounter = 2, changed = True\<rparr>"
  by (simp add: two_todos_def model_defs)

lemma earlier_run_eq:
  "earlier_run = \<lparr>files = [''todos.json'' \<mapsto> sample_text],
                   stdout = [''To-Do added successfully.'', ''To-Do list saved to file.'']\<rparr>"
  by (simp add: earlier_run_def model_defs sample_defs)

subsection \<open>The counter along a run\<close>

lemma sint_add_of_nat:
  fixes c :: "64 word"
  assumes "sint c + int k < 2 ^ 63"
  shows "sint (c + of_nat k) = sint c + int k"
proof -
  have eq: "c + of_nat k = word_of_int (sint c + int k)" by simp
  have lo: "- (2 ^ 63) \<le> sint c + int k" using sint_ge[of c] by simp
  show ?thesis unfolding eq sint_sbintrunc'
    using lo assms by (simp add: signed_take_bit_int_eq_self)
qed

lemma step_idCounter:
  "idCounter (fst (step js x s)) = idCounter (fst s) + (case x of Create title now \<Rightarrow> 1 | _ \<Rightarrow> 0)"
proof (cases s)
  case (Pair t w)
  show ?thesis
  proof (cases x)
    case (Create title now)
    with Pair show ?thesis by (simp add: CreateTodo_eq)
  next
    case (Update i newTitle completed)
    with Pair show ?thesis
      by (cases "range_ID i (todos t)") (simp_all add: UpdateTodo_None UpdateTodo_Some)
  next
    case (Delete i)
    with Pair show ?thesis
      by (cases "range_ID i (todos t)") (simp_all add: DeleteTodo_None DeleteTodo_Some)
  next
    case (Save filename io)
    obtain r t' w' where r: "SaveToFile js io filename t w = (r, t', w')" by (metis prod_cases3)
    from SaveToFile_cases[OF r] r Save Pair show ?thesis by auto
  next
    case (Load filename fault)
    obtain r t' w' where r: "LoadFromFile js fault filename t w = (r, t', w')" by (metis prod_cases3)
    from LoadFromFile_store[OF r] r Load Pair show ?thesis by auto
  qed
qed

lemma assigned_eq:
  "assigned js xs s = map (\<lambda>k. idCounter (fst s) + of_nat (Suc k)) [0..<creates xs]"
proof (induction xs arbitrary: s)
  case Nil
  show ?case by simp
next
  case (Cons x xs)
  show ?case
  proof (cases x)
    case (Create title now)
    obtain t w where s: "s = (t, w)" by (cases s)
    have "map (\<lambda>k. idCounter t + of_nat (Suc k)) [0..<Suc (creates xs)]
          = (idCounter t + 1) # map (\<lambda>k. idCounter t + 1 + of_nat (Suc k)) [0..<creates xs]"
      by (simp add: upt_conv_Cons map_Suc_upt[symmetric] add.assoc add.commute del: upt_Suc)
    then show ?thesis using Create s Cons.IH[of "step js x s"]
      by (simp add: CreateTodo_eq)
  next
    case Update
    then show ?thesis using Cons.IH[of "step js x s"] by (simp add: step_idCounter)
  next
    case Delete
    then show ?thesis using Cons.IH[of "step js x s"] by (simp add: step_idCounter)
  next
    case Save
    then show ?thesis using Cons.IH[of "step js x s"] by (simp add: step_idCounter)
  next
    case Load
    then show ?thesis using Cons.IH[of "step js x s"] by (simp add: step_idCounter)
  qed
qed

lemma run_idCounter:
  "idCounter (fst (run js xs s)) = idCounter (fst s) + of_nat (creates xs)"
proof (induction xs arbitrary: s)
  case Nil
  show ?case by simp
next
  case (Cons x xs)
  show ?case using Cons.IH[of "step js x s"] by (cases x) (simp_all add: step_idCounter)
qed

lemma sint_assigned:
  assumes "sint (c :: 64 word) + int n < 2 ^ 63"
  shows "map sint (map (\<lambda>k. c + of_nat (Suc k)) [0..<n]) = map (\<lambda>k. sint c + int (Suc k)) [0..<n]"
proof -
  have "sint (c + of_nat (Suc k)) = sint c + int (Suc k)" if "k < n" for k
    using that assms by (intro sint_add_of_nat) simp
  then show ?thesis by simp
qed

subsection \<open>The invariant under each operation\<close>

lemma distinct_without_nth:
  assumes "distinct xs"
  shows "distinct (take k xs @ drop (Suc k) xs)"
proof -
  have "distinct (take k xs @ drop k xs)" using assms by simp
  then have parts: "distinct (take k xs)" "distinct (drop k xs)" "set (take k xs) \<inter> set (drop k xs) = {}"
    by (simp_all only: distinct_append)
  have sub: "set (drop (Suc k) xs) \<subseteq> set (drop k xs)"
    by (rule set_drop_subset_set_drop) simp
  have "distinct (drop (Suc k) xs)" using assms by (rule distinct_drop)
  with parts sub show ?thesis by (auto simp only: distinct_append)
qed

lemma store_inv_Create:
  assumes "store_inv t" and "sint (idCounter t) + 1 < 2 ^ 63"
  shows "store_inv (fst (CreateTodo title now t w))"
proof -
  have s: "sint (idCounter t + 1) = sint (idCounter t) + 1"
    using sint_add_of_nat[of "idCounter t" 1] assms(2) by simp
  have "ID x \<noteq> idCounter t + 1" if "x \<in> set (todos t)" for x
  proof
    assume "ID x = idCounter t + 1"
    moreover have "sint (ID x) \<le> sint (idCounter t)" using assms(1) that by (simp add: store_inv_def)
    ultimately show False using s by simp
  qed
  then show ?thesis using assms(1) s by (auto simp: store_inv_def CreateTodo_eq)
qed

lemma store_inv_Update:
  assumes "store_inv t"
  shows "store_inv (fst (UpdateTodo i newTitle completed t w))"
proof (cases "range_ID i (todos t)")
  case None
  then show ?thesis using assms by (simp add: UpdateTodo_None)
next
  case (Some k)
  let ?r = "(todos t ! k)\<lparr>Title := (if newTitle = [] then Title (todos t ! k) else newTitle),
                          Completed := completed\<rparr>"
  from range_ID_Some[OF Some] have k: "k < length (todos t)" by simp
  have ids: "map ID ((todos t)[k := ?r]) = map ID (todos t)"
    by (simp add: map_update list_update_same_conv k)
  have "sint (ID x) \<le> sint (idCounter t)" if "x \<in> set ((todos t)[k := ?r])" for x
  proof -
    from that have "ID x \<in> set (map ID ((todos t)[k := ?r]))" by simp
    then have "ID x \<in> ID ` set (todos t)" unfolding ids by simp
    then show ?thesis using assms by (auto simp: store_inv_def)
  qed
  then show ?thesis using assms ids by (simp add: UpdateTodo_Some[OF Some] store_inv_def)
qed

lemma store_inv_Delete:
  assumes "store_inv t"
  shows "store_inv (fst (DeleteTodo i t w))"
proof (cases "range_ID i (todos t)")
  case None
  then show ?thesis using assms by (simp add: DeleteTodo_None)
next
  case (Some k)
  have d: "distinct (map ID (take k (todos t) @ drop (Suc k) (todos t)))"
  proof -
    have "distinct (take k (map ID (todos t)) @ drop (Suc k) (map ID (todos t)))"
      using assms by (intro distinct_without_nth) (simp add: store_inv_def)
    then show ?thesis by (simp only: map_append take_map drop_map)
  qed
  have "x \<in> set (todos t)" if "x \<in> set (take k (todos t) @ drop (Suc k) (todos t))" for x
    using that by (auto dest: in_set_takeD in_set_dropD)
  then show ?thesis using assms d by (auto simp: DeleteTodo_Some[OF Some] store_inv_def)
qed

lemma store_inv_Save:
  assumes "store_inv t"
  shows "store_inv (fst (snd (SaveToFile js io filename t w)))"
proof -
  obtain r t' w' where r: "SaveToFile js io filename t w = (r, t', w')" by (metis prod_cases3)
  from SaveToFile_cases[OF r] assms r show ?thesis by (auto simp: store_inv_def)
qed

lemma store_inv_step:
  assumes "store_inv (fst s)"
    and "sint (idCounter (fst s)) + int (creates (x # xs)) < 2 ^ 63"
    and "loads_keep js (x # xs) s"
  shows "store_inv (fst (step js x s))
         \<and> sint (idCounter (fst (step js x s))) + int (creates xs) < 2 ^ 63
         \<and> loads_keep js xs (step js x s)"
proof -
  obtain t w where s: "s = (t, w)" by (cases s)
  show ?thesis
  proof (cases x)
    case (Create title now)
    have room: "sint (idCounter t) + 1 < 2 ^ 63" using assms(2) s Create by simp
    have c: "sint (idCounter t + 1) = sint (idCounter t) + 1"
      using sint_add_of_nat[of "idCounter t" 1] room by simp
    have "store_inv (fst (step js x s))"
      using store_inv_Create[OF _ room] assms(1) s Create by simp
    moreover have "sint (idCounter (fst (step js x s))) + int (creates xs) < 2 ^ 63"
      using assms(2) s Create c by (simp add: CreateTodo_eq)
    moreover have "loads_keep js xs (step js x s)" using assms(3) Create by simp
    ultimately show ?thesis by simp
  next
    case (Update i newTitle completed)
    have "store_inv (fst (step js x s))" using store_inv_Update assms(1) s Update by simp
    moreover have "sint (idCounter (fst (step js x s))) + int (creates xs) < 2 ^ 63"
      using assms(2) Update by (simp add: step_idCounter)
    moreover have "loads_keep js xs (step js x s)" using assms(3) Update by simp
    ultimately show ?thesis by simp
  next
    case (Delete i)
    have "store_inv (fst (step js x s))" using store_inv_Delete assms(1) s Delete by simp
    moreover have "sint (idCounter (fst (step js x s))) + int (creates xs) < 2 ^ 63"
      using assms(2) Delete by (simp add: step_idCounter)
    moreover have "loads_keep js xs (step js x s)" using assms(3) Delete by simp
    ultimately show ?thesis by simp
  next
    case (Save filename io)
    have "store_inv (fst (step js x s))" using store_inv_Save assms(1) s Save by simp
    moreover have "sint (idCounter (fst (step js x s))) + int (creates xs) < 2 ^ 63"
      using assms(2) Save by (simp add: step_idCounter)
    moreover have "loads_keep js xs (step js x s)" using assms(3) Save by simp
    ultimately show ?thesis by simp
  next
    case (Load filename fault)
    have "store_inv (fst (step js x s))" using assms(3) Load by simp
    moreover have "sint (idCounter (fst (step js x s))) + int (creates xs) < 2 ^ 63"
      using assms(2) Load by (simp add: step_idCounter)
    moreover have "loads_keep js xs (step js x s)" using assms(3) Load by simp
    ultimately show ?thesis by simp
  qed
qed

text \<open>A run without \<^verbatim>\<open>Load\<close> meets the condition on loads.\<close>

lemma loads_keep_without_Load:
  "list_all (\<lambda>x. \<not> is_Load x) xs \<Longrightarrow> loads_keep js xs s"
proof (induction xs arbitrary: s)
  case Nil
  show ?case by simp
next
  case (Cons a xs)
  then show ?case by (cases a) simp_all
qed

lemma store_inv_run:
  "store_inv (fst s) \<Longrightarrow> sint (idCounter (fst s)) + int (creates xs) < 2 ^ 63
   \<Longrightarrow> loads_keep js xs s \<Longrightarrow> store_inv (fst (run js xs s))"
proof (induction xs arbitrary: s)
  case Nil
  then show ?case by simp
next
  case (Cons x xs)
  from store_inv_step[OF Cons.prems] Cons.IH[of "step js x s"] show ?case by simp
qed

subsection \<open>A tick that finds the flag set\<close>

text \<open>
  Such a tick calls \<^verbatim>\<open>SaveToFile\<close>, and the call shows in the output: a successful save
  prints its line, and the error of a failed one is printed by the loop.
\<close>

lemma AutoSave_tick_dirty:
  assumes "changed t"
  shows "stdout (snd (AutoSave_tick js io filename t w)) \<noteq> stdout w"
  using assms
  by (auto simp: AutoSave_tick_def SaveToFile_def Encode_def file_Write_def os_Create_def
                 Println_def Let_def
           split: sum.splits prod.splits option.splits)

subsection \<open>Coerced titles\<close>

lemma coerce_from_valid: "valid_from k s \<Longrightarrow> coerce_from k s = s"
proof (induction k s rule: coerce_from.induct)
  case (1 k)
  show ?case by simp
next
  case (2 b rest)
  show ?case
  proof (cases "rune_size (b # rest)")
    case 0
    with "2.prems" show ?thesis by (simp del: rune_size.simps)
  next
    case (Suc n)
    with "2.prems" "2.IH"(2)[OF Suc] show ?thesis by (simp del: rune_size.simps)
  qed
next
  case (3 k b rest)
  then show ?case by simp
qed

lemma json_coerce_valid: "ValidString s \<Longrightarrow> json_coerce s = s"
  by (simp add: ValidString_def json_coerce_def coerce_from_valid)

lemma map_coerce_todo_valid:
  "list_all (\<lambda>x. ValidString (Title x)) ts \<Longrightarrow> map coerce_todo ts = ts"
  by (induction ts) (simp_all add: coerce_todo_def json_coerce_valid)

lemma ValidString_Buy_milk: "ValidString ''Buy milk''"
  by code_simp

lemma json_coerce_ff: "json_coerce [CHR 0xFF] = [CHR 0xEF, CHR 0xBF, CHR 0xBD]"
  by code_simp

lemma json_lawful_sample: "json_lawful json_sample"
proof -
  have "map coerce_todo sample_todos = sample_todos"
    by (rule map_coerce_todo_valid) (simp add: sample_todos_def ValidString_Buy_milk)
  then show ?thesis
    by (simp add: json_lawful_def json_sample_def)
qed

lemma json_lawful_ff: "json_lawful json_ff"
proof -
  have "map coerce_todo ff_todos = ff_loaded"
    by (simp add: ff_todos_def ff_loaded_def coerce_todo_def json_coerce_ff)
  then show ?thesis
    by (simp add: json_lawful_def json_ff_def)
qed

section \<open>The claims\<close>

subsection \<open>Ids along a run\<close>

text \<open>
  Claim C1. In every run of operations (creations interleaved with deletions and with
  the other operations), started from any store, the ids that the creations assign are
  the counter of the start plus 1, plus 2, and so on: each is the counter as the previous
  creation left it plus one, and no deletion moves the counter. As long as the counter
  stays within the range of \<^verbatim>\<open>int\<close> (it starts at 0 and needs \<open>2 ^ 63\<close> creations to
  leave it), the assigned ids are strictly increasing and no id is assigned twice.
\<close>

theorem ids_consecutive:
  "assigned js xs (t, w) = map (\<lambda>k. idCounter t + of_nat (Suc k)) [0..<creates xs]
   \<and> idCounter (fst (run js xs (t, w))) = idCounter t + of_nat (creates xs)
   \<and> (sint (idCounter t) + int (creates xs) < 2 ^ 63 \<longrightarrow>
        map sint (assigned js xs (t, w)) = map (\<lambda>k. sint (idCounter t) + int (Suc k)) [0..<creates xs]
        \<and> sorted_wrt (\<lambda>a b. sint a < sint b) (assigned js xs (t, w))
        \<and> distinct (assigned js xs (t, w)))"
proof (intro conjI impI)
  show eq: "assigned js xs (t, w) = map (\<lambda>k. idCounter t + of_nat (Suc k)) [0..<creates xs]"
    by (simp add: assigned_eq)
  show "idCounter (fst (run js xs (t, w))) = idCounter t + of_nat (creates xs)"
    by (simp add: run_idCounter)
  assume room: "sint (idCounter t) + int (creates xs) < 2 ^ 63"
  show signed: "map sint (assigned js xs (t, w))
                = map (\<lambda>k. sint (idCounter t) + int (Suc k)) [0..<creates xs]"
    unfolding eq by (rule sint_assigned[OF room])
  have "sorted_wrt (<) (map sint (assigned js xs (t, w)))"
    unfolding signed by (simp add: sorted_wrt_map sorted_wrt_iff_nth_less)
  then show "sorted_wrt (\<lambda>a b. sint a < sint b) (assigned js xs (t, w))"
    by (simp add: sorted_wrt_map)
  have "distinct (map sint (assigned js xs (t, w)))"
    unfolding signed by (simp add: distinct_map inj_on_def)
  then show "distinct (assigned js xs (t, w))"
    by (simp add: distinct_map)
qed

text \<open>
  Claim C1 on the scenario: the three creations get the ids 1, 2 and 3, although the
  record with id 1 was deleted before the third.
\<close>

theorem ids_consecutive_witness:
  "sint (idCounter TodoList_zero) + int (creates scenario) < 2 ^ 63
   \<and> assigned json_sample scenario (TodoList_zero, world_empty) = [1, 2, 3]
   \<and> idCounter (fst (run json_sample scenario (TodoList_zero, world_empty))) = 3
   \<and> sorted_wrt (\<lambda>a b. sint a < sint b) (assigned json_sample scenario (TodoList_zero, world_empty))
   \<and> distinct (assigned json_sample scenario (TodoList_zero, world_empty))"
proof -
  have room: "sint (idCounter TodoList_zero) + int (creates scenario) < 2 ^ 63"
    by (simp add: TodoList_zero_def scenario_def)
  have n: "creates scenario = 3" by (simp add: scenario_def)
  have z: "idCounter TodoList_zero = 0" by (simp add: TodoList_zero_def)
  from ids_consecutive[of json_sample scenario TodoList_zero world_empty] room n z
  show ?thesis by (simp add: upt_conv_Cons del: upt_Suc)
qed

subsection \<open>The invariant of the store\<close>

text \<open>
  Claim C2, amended. Start from the store that \<^verbatim>\<open>main\<close> constructs and run any
  operations with fewer than \<open>2 ^ 63\<close> creations. If every \<^verbatim>\<open>Load\<close> of the run leaves a
  sequence with unique ids none above the counter, then in the state reached every id is
  unique and at most the counter. Creation, update, deletion and saving keep the
  invariant by themselves; loading replaces the sequence by what the file holds and
  leaves the counter alone, so it keeps the invariant only when the file fits.
\<close>

theorem reachable_store_inv:
  assumes "int (creates xs) < 2 ^ 63" and "loads_keep js xs (TodoList_zero, w)"
  shows "store_inv (fst (run js xs (TodoList_zero, w)))"
  using assms by (intro store_inv_run) (simp_all add: store_inv_def TodoList_zero_def)

text \<open>
  Claim C2 as stated fails. A process that starts on the file of an earlier run loads
  the record with id 1 while its counter is 0; the creation that follows assigns id 1
  again.
\<close>

theorem reachable_store_inv_counterexample:
  "\<not> store_inv (fst (run json_sample [Load ''todos.json'' None] (TodoList_zero, restart earlier_run)))
   \<and> \<not> distinct (map ID (todos (fst (run json_sample
                                         [Load ''todos.json'' None, Create ''Walk dog'' 1]
                                         (TodoList_zero, restart earlier_run)))))"
  by (simp add: earlier_run_eq model_defs sample_defs store_inv_def)

text \<open>
  The amended claim C2 on a run that starts without a file (the first load fails and
  leaves the store empty), saves one record, deletes it and loads it again.
\<close>

theorem reachable_store_inv_witness:
  "int (creates [Load ''todos.json'' None, Create ''Buy milk'' 0, Save ''todos.json'' no_fault,
                 Delete 1, Load ''todos.json'' None, Update 1 [] True]) < 2 ^ 63
   \<and> loads_keep json_sample
        [Load ''todos.json'' None, Create ''Buy milk'' 0, Save ''todos.json'' no_fault,
         Delete 1, Load ''todos.json'' None, Update 1 [] True] (TodoList_zero, world_empty)
   \<and> store_inv (fst (run json_sample
        [Load ''todos.json'' None, Create ''Buy milk'' 0, Save ''todos.json'' no_fault,
         Delete 1, Load ''todos.json'' None, Update 1 [] True] (TodoList_zero, world_empty)))"
proof -
  let ?xs = "[Load ''todos.json'' None, Create ''Buy milk'' 0, Save ''todos.json'' no_fault,
              Delete 1, Load ''todos.json'' None, Update 1 [] True]"
  have n: "int (creates ?xs) < 2 ^ 63" by simp
  have l: "loads_keep json_sample ?xs (TodoList_zero, world_empty)"
    by (simp add: model_defs sample_defs store_inv_def)
  from reachable_store_inv[OF n l] n l show ?thesis by simp
qed

subsection \<open>Updating a record\<close>

text \<open>
  Claim C3. When the id is present in the store, \<^verbatim>\<open>UpdateTodo\<close> changes the first record
  with that id and no other: its title is replaced by a non-empty new title and kept when
  the new title is empty, its completion flag becomes the given value in both cases, and
  the flag \<^verbatim>\<open>changed\<close> is set.
\<close>

theorem UpdateTodo_present:
  assumes "id' \<in> ID ` set (todos t)"
  shows "let i = length (takeWhile (\<lambda>x. ID x \<noteq> id') (todos t));
             old = todos t ! i;
             t' = fst (UpdateTodo id' newTitle completed t w)
         in i < length (todos t) \<and> ID old = id'
            \<and> todos t' = (todos t)[i := old\<lparr>Title := (if newTitle = [] then Title old else newTitle),
                                             Completed := completed\<rparr>]
            \<and> changed t' \<and> idCounter t' = idCounter t"
proof -
  let ?i = "length (takeWhile (\<lambda>x. ID x \<noteq> id') (todos t))"
  have r: "range_ID id' (todos t) = Some ?i" using assms by (rule range_ID_first)
  from range_ID_Some[OF r] show ?thesis by (simp add: UpdateTodo_Some[OF r] Let_def)
qed

text \<open>
  Claim C3 on the store with ids 1 and 2: an empty title keeps the title Walk dog and
  sets the completion flag, a new title replaces it.
\<close>

theorem UpdateTodo_present_witness:
  "2 \<in> ID ` set (todos two_todos)
   \<and> todos (fst (UpdateTodo 2 [] True two_todos world_empty))
       = [\<lparr>ID = 1, Title = ''Buy milk'', Completed = False, CreatedAt = 0\<rparr>,
          \<lparr>ID = 2, Title = ''Walk dog'', Completed = True, CreatedAt = 1\<rparr>]
   \<and> todos (fst (UpdateTodo 2 ''Walk cat'' False two_todos world_empty))
       = [\<lparr>ID = 1, Title = ''Buy milk'', Completed = False, CreatedAt = 0\<rparr>,
          \<lparr>ID = 2, Title = ''Walk cat'', Completed = False, CreatedAt = 1\<rparr>]
   \<and> changed (fst (UpdateTodo 2 [] True two_todos world_empty))"
proof -
  have h: "2 \<in> ID ` set (todos two_todos)" by (simp add: two_todos_eq)
  from UpdateTodo_present[OF h, of "[]" True world_empty]
       UpdateTodo_present[OF h, of "''Walk cat''" False world_empty] h
  show ?thesis by (simp add: two_todos_eq Let_def)
qed

subsection \<open>Saving and loading\<close>

text \<open>
  Claim C4, amended. Let the codec behave as \<^verbatim>\<open>encoding/json\<close> documents, let a save
  of a store succeed, and let a load of the same file into a new store succeed. Then the
  new store holds the saved records in the saved order with the same ids, completion
  flags and creation times, each title coerced to valid UTF-8. When every saved title is
  valid UTF-8 the loaded sequence is the saved one. In both cases the counter of the new
  store is still 0, whatever ids were loaded.
\<close>

theorem save_load_roundtrip:
  assumes "json_lawful js"
    and "SaveToFile js io filename t w = (None, t1, w1)"
    and "LoadFromFile js fault filename TodoList_zero w1 = (None, t2, w2)"
  shows "todos t2 = map coerce_todo (todos t)
         \<and> (list_all (\<lambda>x. ValidString (Title x)) (todos t) \<longrightarrow> todos t2 = todos t)
         \<and> idCounter t2 = 0"
proof -
  from SaveToFile_written[OF assms(2)] obtain data
    where data: "Marshal js (todos t) = Inr data" "files w1 filename = Some data" by blast
  from assms(1) data(1) have dec: "Unmarshal js data [] = (None, map coerce_todo (todos t))"
    by (simp add: json_lawful_def)
  from assms(3) data(2) dec have loaded: "todos t2 = map coerce_todo (todos t)"
    by (auto simp: LoadFromFile_def os_Open_def TodoList_zero_def split: option.splits)
  have counter: "idCounter t2 = 0"
    using LoadFromFile_store[OF assms(3)] by (simp add: TodoList_zero_def)
  from loaded counter show ?thesis by (simp add: map_coerce_todo_valid)
qed

text \<open>
  Claim C4 as stated fails on a title that is not valid UTF-8: the save and the load
  both succeed, and the loaded title is the three bytes of U+FFFD where the saved one
  was the byte FF.
\<close>

theorem save_load_roundtrip_counterexample:
  "fst (SaveToFile json_ff no_fault ''todos.json'' ff_store world_empty) = None
   \<and> fst (LoadFromFile json_ff None ''todos.json'' TodoList_zero
             (snd (snd (SaveToFile json_ff no_fault ''todos.json'' ff_store world_empty)))) = None
   \<and> todos (fst (snd (LoadFromFile json_ff None ''todos.json'' TodoList_zero
             (snd (snd (SaveToFile json_ff no_fault ''todos.json'' ff_store world_empty))))))
       \<noteq> todos ff_store"
  by (simp add: model_defs json_ff_def ff_store_def ff_todos_def ff_loaded_def ff_text_def
                world_empty_def no_fault_def)

text \<open>
  The amended claim C4 on the store with the sample record, whose title is valid and
  comes back as it was, and on the store with the title FF, which comes back coerced;
  both new stores have counter 0.
\<close>

theorem save_load_roundtrip_witness:
  "json_lawful json_sample
   \<and> SaveToFile json_sample no_fault ''todos.json''
       \<lparr>todos = sample_todos, idCounter = 1, changed = True\<rparr> world_empty
     = (None, \<lparr>todos = sample_todos, idCounter = 1, changed = False\<rparr>,
        \<lparr>files = [''todos.json'' \<mapsto> sample_text], stdout = [''To-Do list saved to file.'']\<rparr>)
   \<and> LoadFromFile json_sample None ''todos.json'' TodoList_zero
       \<lparr>files = [''todos.json'' \<mapsto> sample_text], stdout = [''To-Do list saved to file.'']\<rparr>
     = (None, \<lparr>todos = sample_todos, idCounter = 0, changed = False\<rparr>,
        \<lparr>files = [''todos.json'' \<mapsto> sample_text],
          stdout = [''To-Do list saved to file.'', ''To-Do list loaded from file.'']\<rparr>)
   \<and> list_all (\<lambda>x. ValidString (Title x)) sample_todos
   \<and> json_lawful json_ff
   \<and> SaveToFile json_ff no_fault ''todos.json'' ff_store world_empty
     = (None, \<lparr>todos = ff_todos, idCounter = 1, changed = False\<rparr>,
        \<lparr>files = [''todos.json'' \<mapsto> ff_text], stdout = [''To-Do list saved to file.'']\<rparr>)
   \<and> LoadFromFile json_ff None ''todos.json'' TodoList_zero
       \<lparr>files = [''todos.json'' \<mapsto> ff_text], stdout = [''To-Do list saved to file.'']\<rparr>
     = (None, \<lparr>todos = ff_loaded, idCounter = 0, changed = False\<rparr>,
        \<lparr>files = [''todos.json'' \<mapsto> ff_text],
          stdout = [''To-Do list saved to file.'', ''To-Do list loaded from file.'']\<rparr>)
   \<and> ff_loaded = map coerce_todo ff_todos"
proof -
  let ?t = "\<lparr>todos = sample_todos, idCounter = 1, changed = True\<rparr>"
  let ?t1 = "\<lparr>todos = sample_todos, idCounter = 1, changed = False\<rparr>"
  let ?w1 = "\<lparr>files = [''todos.json'' \<mapsto> sample_text], stdout = [''To-Do list saved to file.'']\<rparr>"
  let ?t2 = "\<lparr>todos = sample_todos, idCounter = 0, changed = False\<rparr>"
  let ?w2 = "\<lparr>files = [''todos.json'' \<mapsto> sample_text],
              stdout = [''To-Do list saved to file.'', ''To-Do list loaded from file.'']\<rparr>"
  let ?u1 = "\<lparr>todos = ff_todos, idCounter = 1, changed = False\<rparr>"
  let ?v1 = "\<lparr>files = [''todos.json'' \<mapsto> ff_text], stdout = [''To-Do list saved to file.'']\<rparr>"
  let ?u2 = "\<lparr>todos = ff_loaded, idCounter = 0, changed = False\<rparr>"
  let ?v2 = "\<lparr>files = [''todos.json'' \<mapsto> ff_text],
              stdout = [''To-Do list saved to file.'', ''To-Do list loaded from file.'']\<rparr>"
  have s: "SaveToFile json_sample no_fault ''todos.json'' ?t world_empty = (None, ?t1, ?w1)"
    by (simp add: model_defs json_sample_def world_empty_def no_fault_def)
  have l: "LoadFromFile json_sample None ''todos.json'' TodoList_zero ?w1 = (None, ?t2, ?w2)"
    by (simp add: model_defs json_sample_def)
  have v: "list_all (\<lambda>x. ValidString (Title x)) (todos ?t)"
    by (simp add: sample_todos_def ValidString_Buy_milk)
  have s': "SaveToFile json_ff no_fault ''todos.json'' ff_store world_empty = (None, ?u1, ?v1)"
    by (simp add: model_defs json_ff_def ff_store_def world_empty_def no_fault_def)
  have l': "LoadFromFile json_ff None ''todos.json'' TodoList_zero ?v1 = (None, ?u2, ?v2)"
    by (simp add: model_defs json_ff_def)
  from save_load_roundtrip[OF json_lawful_sample s l] v
  have a: "todos ?t2 = todos ?t \<and> idCounter ?t2 = 0" by blast
  from save_load_roundtrip[OF json_lawful_ff s' l']
  have b: "todos ?u2 = map coerce_todo (todos ff_store) \<and> idCounter ?u2 = 0" by blast
  from a b s l v s' l' json_lawful_sample json_lawful_ff show ?thesis
    by (simp add: ff_store_def)
qed

subsection \<open>The flag \<^verbatim>\<open>changed\<close>\<close>

text \<open>
  Claim C5, amended. The flag is clear in the store that a successful save returns. It
  is set after every creation, and after an update or a deletion whose id is present in
  the store. An update or a deletion of an absent id leaves the flag as it was.
\<close>

theorem changed_after_operation:
  "(SaveToFile js io filename t w = (None, t', w') \<longrightarrow> \<not> changed t')
   \<and> changed (fst (CreateTodo title now t w))
   \<and> (id' \<in> ID ` set (todos t) \<longrightarrow>
        changed (fst (UpdateTodo id' newTitle completed t w)) \<and> changed (fst (DeleteTodo id' t w)))
   \<and> (id' \<notin> ID ` set (todos t) \<longrightarrow>
        changed (fst (UpdateTodo id' newTitle completed t w)) = changed t
        \<and> changed (fst (DeleteTodo id' t w)) = changed t)"
proof (intro conjI impI)
  assume "SaveToFile js io filename t w = (None, t', w')"
  then show "\<not> changed t'" by (auto dest: SaveToFile_None)
next
  show "changed (fst (CreateTodo title now t w))" by (simp add: CreateTodo_eq)
next
  assume "id' \<in> ID ` set (todos t)"
  then have r: "range_ID id' (todos t) = Some (length (takeWhile (\<lambda>x. ID x \<noteq> id') (todos t)))"
    by (rule range_ID_first)
  show "changed (fst (UpdateTodo id' newTitle completed t w))" by (simp add: UpdateTodo_Some[OF r])
  show "changed (fst (DeleteTodo id' t w))" by (simp add: DeleteTodo_Some[OF r])
next
  assume "id' \<notin> ID ` set (todos t)"
  then have r: "range_ID id' (todos t) = None" by (simp add: range_ID_None)
  show "changed (fst (UpdateTodo id' newTitle completed t w)) = changed t"
    by (simp add: UpdateTodo_None[OF r])
  show "changed (fst (DeleteTodo id' t w)) = changed t"
    by (simp add: DeleteTodo_None[OF r])
qed

text \<open>
  Claim C5 as stated fails: on the new store, whose flag is clear, an update and a
  deletion of id 1 find nothing and leave the flag clear.
\<close>

theorem changed_after_operation_counterexample:
  "\<not> changed (fst (UpdateTodo 1 ''Buy bread'' True TodoList_zero world_empty))
   \<and> \<not> changed (fst (DeleteTodo 1 TodoList_zero world_empty))"
  by (simp add: model_defs)

text \<open>
  The amended claim C5 on a successful save of the sample record, a creation in the
  new store, and, in a store with ids 1 and 2 whose flag was clear, an update and a
  deletion of id 2, which set the flag, and of id 3, which leave it clear.
\<close>

theorem changed_after_operation_witness:
  "SaveToFile json_sample no_fault ''todos.json''
       \<lparr>todos = sample_todos, idCounter = 1, changed = True\<rparr> world_empty
     = (None, \<lparr>todos = sample_todos, idCounter = 1, changed = False\<rparr>,
        \<lparr>files = [''todos.json'' \<mapsto> sample_text], stdout = [''To-Do list saved to file.'']\<rparr>)
   \<and> changed (fst (CreateTodo ''Buy milk'' 0 TodoList_zero world_empty))
   \<and> 2 \<in> ID ` set (todos (two_todos\<lparr>changed := False\<rparr>))
   \<and> changed (fst (UpdateTodo 2 [] True (two_todos\<lparr>changed := False\<rparr>) world_empty))
   \<and> changed (fst (DeleteTodo 2 (two_todos\<lparr>changed := False\<rparr>) world_empty))
   \<and> 3 \<notin> ID ` set (todos (two_todos\<lparr>changed := False\<rparr>))
   \<and> \<not> changed (fst (UpdateTodo 3 [] True (two_todos\<lparr>changed := False\<rparr>) world_empty))
   \<and> \<not> changed (fst (DeleteTodo 3 (two_todos\<lparr>changed := False\<rparr>) world_empty))"
proof -
  let ?t = "\<lparr>todos = sample_todos, idCounter = 1, changed = True\<rparr>"
  let ?t' = "\<lparr>todos = sample_todos, idCounter = 1, changed = False\<rparr>"
  let ?w' = "\<lparr>files = [''todos.json'' \<mapsto> sample_text], stdout = [''To-Do list saved to file.'']\<rparr>"
  have s: "SaveToFile json_sample no_fault ''todos.json'' ?t world_empty = (None, ?t', ?w')"
    by (simp add: model_defs json_sample_def world_empty_def no_fault_def)
  have h: "2 \<in> ID ` set (todos (two_todos\<lparr>changed := False\<rparr>))" by (simp add: two_todos_eq)
  from changed_after_operation[of json_sample no_fault "''todos.json''" ?t world_empty ?t' ?w'
                                  "''Buy milk''" 0 1 "[]" True] s
  have "\<not> changed ?t'" by blast
  moreover
  from changed_after_operation[of json_sample no_fault "''todos.json''"
                                  "two_todos\<lparr>changed := False\<rparr>" world_empty
                                  ?t' ?w' "''Buy milk''" 0 2 "[]" True] h
  have "changed (fst (UpdateTodo 2 [] True (two_todos\<lparr>changed := False\<rparr>) world_empty))
        \<and> changed (fst (DeleteTodo 2 (two_todos\<lparr>changed := False\<rparr>) world_empty))" by blast
  moreover
  from changed_after_operation[of json_sample no_fault "''todos.json''" TodoList_zero world_empty
                                  ?t' ?w' "''Buy milk''" 0 2 "[]" True]
  have "changed (fst (CreateTodo ''Buy milk'' 0 TodoList_zero world_empty))" by blast
  moreover
  have h3: "3 \<notin> ID ` set (todos (two_todos\<lparr>changed := False\<rparr>))" by (simp add: two_todos_eq)
  from changed_after_operation[of json_sample no_fault "''todos.json''"
                                  "two_todos\<lparr>changed := False\<rparr>" world_empty
                                  ?t' ?w' "''Buy milk''" 0 3 "[]" True] h3
  have "\<not> changed (fst (UpdateTodo 3 [] True (two_todos\<lparr>changed := False\<rparr>) world_empty))
        \<and> \<not> changed (fst (DeleteTodo 3 (two_todos\<lparr>changed := False\<rparr>) world_empty))"
    by simp
  ultimately show ?thesis using s h h3 by simp
qed

subsection \<open>The auto-save loop\<close>

text \<open>
  Claim C6. A tick that reads the flag \<^verbatim>\<open>changed\<close> clear does not call
  \<^verbatim>\<open>SaveToFile\<close>: the store and the world (the files and the output, where every call
  of \<^verbatim>\<open>SaveToFile\<close> from a tick leaves a line) are as before. Hence any number of ticks
  on a store with a clear flag does nothing, and whatever the loop receives, the store
  and the files stay as they were.
\<close>

theorem AutoSave_clear_flag:
  assumes "\<not> changed t"
  shows "AutoSave_tick js io filename t w = (t, w)
         \<and> AutoSave js filename (map Tick ios) t w = (False, t, w)
         \<and> fst (snd (AutoSave js filename evs t w)) = t
         \<and> files (snd (snd (AutoSave js filename evs t w))) = files w"
proof -
  have tick: "AutoSave_tick js io' filename t w' = (t, w')" for io' w'
    using assms by (simp add: AutoSave_tick_def)
  have ticks: "AutoSave js filename (map Tick ios) t w = (False, t, w)"
    by (induction ios) (simp_all add: tick)
  have any: "fst (snd (AutoSave js filename evs t w')) = t
             \<and> files (snd (snd (AutoSave js filename evs t w'))) = files w'" for w'
  proof (induction evs)
    case Nil
    show ?case by simp
  next
    case (Cons e evs)
    then show ?case by (cases e) (simp_all add: tick Println_def)
  qed
  from tick ticks any show ?thesis by simp
qed

text \<open>
  Claim C6 on a store that holds the sample record with a clear flag: two ticks and the
  shutdown signal print the farewell line only, and no file appears.
\<close>

theorem AutoSave_clear_flag_witness:
  "\<not> changed \<lparr>todos = sample_todos, idCounter = 1, changed = False\<rparr>
   \<and> AutoSave_tick json_sample no_fault ''todos.json''
        \<lparr>todos = sample_todos, idCounter = 1, changed = False\<rparr> world_empty
      = (\<lparr>todos = sample_todos, idCounter = 1, changed = False\<rparr>, world_empty)
   \<and> AutoSave json_sample ''todos.json'' [Tick no_fault, Tick no_fault, Done]
        \<lparr>todos = sample_todos, idCounter = 1, changed = False\<rparr> world_empty
      = (True, \<lparr>todos = sample_todos, idCounter = 1, changed = False\<rparr>,
         \<lparr>files = Map.empty, stdout = [''Auto-save stopped.'']\<rparr>)"
proof -
  let ?t = "\<lparr>todos = sample_todos, idCounter = 1, changed = False\<rparr>"
  have clear: "\<not> changed ?t" by simp
  have run: "AutoSave json_sample ''todos.json'' [Tick no_fault, Tick no_fault, Done] ?t world_empty
             = (True, ?t, \<lparr>files = Map.empty, stdout = [''Auto-save stopped.'']\<rparr>)"
    by (simp add: AutoSave_tick_def Println_def world_empty_def)
  from AutoSave_clear_flag[OF clear, of json_sample no_fault "''todos.json''" world_empty
                              "[no_fault, no_fault]" "[Tick no_fault, Tick no_fault, Done]"]
       clear run
  show ?thesis by simp
qed

subsection \<open>Deleting, then updating\<close>

text \<open>
  Claim C7, amended. In a store where the id occurs at most once (in particular in a
  store with unique ids), an update of the id that follows its deletion finds no record:
  it prints the not-found line and returns the store as the deletion left it.
\<close>

theorem Delete_then_Update:
  assumes "count_list (map ID (todos t)) id' \<le> 1"
    and "DeleteTodo id' t w = (t1, w1)"
  shows "UpdateTodo id' newTitle completed t1 w1 = (t1, Println ''To-Do not found.'' w1)"
proof (cases "range_ID id' (todos t)")
  case None
  with assms(2) have "t1 = t" by (simp add: DeleteTodo_None)
  with None show ?thesis by (simp add: UpdateTodo_None)
next
  case (Some k)
  with assms(2) have "todos t1 = take k (todos t) @ drop (Suc k) (todos t)"
    by (auto simp: DeleteTodo_Some)
  then have "range_ID id' (todos t1) = None"
    using range_ID_removed[OF assms(1) Some] by simp
  then show ?thesis by (rule UpdateTodo_None)
qed

text \<open>
  Claim C7 as stated fails on a store that holds an id twice, which a process reaches
  when it loads the file of an earlier run and creates a task: the deletion removes the
  first record with id 1, and the update finds the second.
\<close>

theorem Delete_then_Update_counterexample:
  "stdout (snd (run json_sample
                  [Load ''todos.json'' None, Create ''Walk dog'' 1, Delete 1, Update 1 [] True]
                  (TodoList_zero, restart earlier_run)))
   = [''To-Do list loaded from file.'', ''To-Do added successfully.'',
      ''To-Do deleted successfully.'', ''To-Do updated successfully.'']"
  by (simp add: earlier_run_eq model_defs sample_defs)

text \<open>The amended claim C7 on the store with ids 1 and 2.\<close>

theorem Delete_then_Update_witness:
  "count_list (map ID (todos two_todos)) 1 \<le> 1
   \<and> DeleteTodo 1 two_todos world_empty
      = (\<lparr>todos = [\<lparr>ID = 2, Title = ''Walk dog'', Completed = False, CreatedAt = 1\<rparr>],
          idCounter = 2, changed = True\<rparr>,
         \<lparr>files = Map.empty, stdout = [''To-Do deleted successfully.'']\<rparr>)
   \<and> UpdateTodo 1 ''Buy bread'' True
        \<lparr>todos = [\<lparr>ID = 2, Title = ''Walk dog'', Completed = False, CreatedAt = 1\<rparr>],
          idCounter = 2, changed = True\<rparr>
        \<lparr>files = Map.empty, stdout = [''To-Do deleted successfully.'']\<rparr>
      = (\<lparr>todos = [\<lparr>ID = 2, Title = ''Walk dog'', Completed = False, CreatedAt = 1\<rparr>],
          idCounter = 2, changed = True\<rparr>,
         \<lparr>files = Map.empty, stdout = [''To-Do deleted successfully.'', ''To-Do not found.'']\<rparr>)"
proof -
  let ?t1 = "\<lparr>todos = [\<lparr>ID = 2, Title = ''Walk dog'', Completed = False, CreatedAt = 1\<rparr>],
              idCounter = 2, changed = True\<rparr>"
  let ?w1 = "\<lparr>files = Map.empty, stdout = [''To-Do deleted successfully.'']\<rparr>"
  have once: "count_list (map ID (todos two_todos)) 1 \<le> 1" by (simp add: two_todos_eq)
  have del: "DeleteTodo 1 two_todos world_empty = (?t1, ?w1)"
    by (simp add: two_todos_eq DeleteTodo_def Println_def world_empty_def)
  from Delete_then_Update[OF once del, of "''Buy bread''" True] once del
  show ?thesis by (simp add: Println_def)
qed

subsection \<open>A save that fails\<close>

text \<open>
  Claim C8. When \<^verbatim>\<open>SaveToFile\<close> returns an error (the file cannot be created, the slice
  cannot be encoded, or the write fails), it returns the store untouched: a flag
  \<^verbatim>\<open>changed\<close> that was set is still set, so that the next tick saves again.
\<close>

theorem SaveToFile_error_keeps_flag:
  assumes "SaveToFile js io filename t w = (Some err, t', w')" and "changed t"
  shows "changed t' \<and> t' = t"
  using assms by (auto dest: SaveToFile_Some)

text \<open>
  Claim C8 on a refused creation of the file and on a write that fails after ten bytes.
\<close>

theorem SaveToFile_error_keeps_flag_witness:
  "SaveToFile json_sample
       \<lparr>create_fault = Some (Err False ''open todos.json: permission denied''), write_fault = None\<rparr>
       ''todos.json'' \<lparr>todos = sample_todos, idCounter = 1, changed = True\<rparr> world_empty
     = (Some (Err False ''open todos.json: permission denied''),
        \<lparr>todos = sample_todos, idCounter = 1, changed = True\<rparr>, world_empty)
   \<and> SaveToFile json_sample
       \<lparr>create_fault = None,
         write_fault = Some (10, Err False ''write todos.json: no space left on device'')\<rparr>
       ''todos.json'' \<lparr>todos = sample_todos, idCounter = 1, changed = True\<rparr> world_empty
     = (Some (Err False ''write todos.json: no space left on device''),
        \<lparr>todos = sample_todos, idCounter = 1, changed = True\<rparr>,
        \<lparr>files = [''todos.json'' \<mapsto> take 10 sample_text], stdout = []\<rparr>)
   \<and> changed \<lparr>todos = sample_todos, idCounter = 1, changed = True\<rparr>"
proof -
  let ?t = "\<lparr>todos = sample_todos, idCounter = 1, changed = True\<rparr>"
  let ?e1 = "Err False ''open todos.json: permission denied''"
  let ?e2 = "Err False ''write todos.json: no space left on device''"
  let ?w2 = "\<lparr>files = [''todos.json'' \<mapsto> take 10 sample_text], stdout = []\<rparr>"
  have set: "changed ?t" by simp
  have s1: "SaveToFile json_sample \<lparr>create_fault = Some ?e1, write_fault = None\<rparr>
              ''todos.json'' ?t world_empty = (Some ?e1, ?t, world_empty)"
    by (simp add: SaveToFile_def os_Create_def)
  have s2: "SaveToFile json_sample \<lparr>create_fault = None, write_fault = Some (10, ?e2)\<rparr>
              ''todos.json'' ?t world_empty = (Some ?e2, ?t, ?w2)"
    by (simp add: SaveToFile_def os_Create_def Encode_def file_Write_def json_sample_def
                  world_empty_def)
  from SaveToFile_error_keeps_flag[OF s1 set] SaveToFile_error_keeps_flag[OF s2 set] s1 s2
  show ?thesis by simp
qed

subsection \<open>Loading at the start of \<^verbatim>\<open>main\<close>\<close>

text \<open>
  Claim C9, amended. \<^verbatim>\<open>main\<close> goes on after the load in every case. When
  \<^verbatim>\<open>todos.json\<close> is missing, nothing is printed and the store is the empty one. When the
  file exists and cannot be opened, the error is printed and the store is the empty one.
  When the file is opened and the decoder fails, the error is printed and the store holds
  what the decoder left in the slice: it is empty exactly when the decoder stored nothing
  before it failed.
\<close>

theorem main_load_outcomes:
  "(files w ''todos.json'' = None \<longrightarrow> main_load js fault w = (TodoList_zero, w))
   \<and> (files w ''todos.json'' = Some data \<and> fault = Some err \<and> \<not> IsNotExist err \<longrightarrow>
        main_load js fault w = (TodoList_zero, Println (''Error loading file: '' @ Error err) w))
   \<and> (files w ''todos.json'' = Some data \<and> fault = None \<and> Unmarshal js data [] = (Some err, ts)
        \<and> \<not> IsNotExist err \<longrightarrow>
        main_load js fault w
          = (TodoList_zero\<lparr>todos := ts\<rparr>, Println (''Error loading file: '' @ Error err) w))"
  by (simp add: main_load_def LoadFromFile_def os_Open_def TodoList_zero_def)

text \<open>
  Claim C9 as stated fails on a file in which a field has the wrong type: the load
  returns the decoder's error, and the process goes on with the record that the decoder
  had stored, not with an empty store.
\<close>

theorem main_load_outcomes_counterexample:
  "fst (LoadFromFile json_sample None ''todos.json'' TodoList_zero edited_world)
     = Some (Err False ''json: cannot unmarshal string into Go struct field Todo.completed of type bool'')
   \<and> todos (fst (main_load json_sample None edited_world)) = sample_todos
   \<and> todos (fst (main_load json_sample None edited_world)) \<noteq> []"
  by (simp add: model_defs sample_defs)

text \<open>
  The amended claim C9 on a world without files, on a file that cannot be opened, and
  on the edited file.
\<close>

theorem main_load_outcomes_witness:
  "files world_empty ''todos.json'' = None
   \<and> main_load json_sample None world_empty = (TodoList_zero, world_empty)
   \<and> files (restart earlier_run) ''todos.json'' = Some sample_text
   \<and> \<not> IsNotExist (Err False ''open todos.json: permission denied'')
   \<and> main_load json_sample (Some (Err False ''open todos.json: permission denied'')) (restart earlier_run)
      = (TodoList_zero,
         \<lparr>files = [''todos.json'' \<mapsto> sample_text],
           stdout = [''Error loading file: open todos.json: permission denied'']\<rparr>)
   \<and> files edited_world ''todos.json'' = Some mismatch_text
   \<and> main_load json_sample None edited_world
      = (\<lparr>todos = sample_todos, idCounter = 0, changed = False\<rparr>,
         \<lparr>files = [''todos.json'' \<mapsto> mismatch_text],
           stdout = [''Error loading file: json: cannot unmarshal string into Go struct field Todo.completed of type bool'']\<rparr>)"
proof -
  let ?e1 = "Err False ''open todos.json: permission denied''"
  let ?e2 = "Err False ''json: cannot unmarshal string into Go struct field Todo.completed of type bool''"
  have missing: "files world_empty ''todos.json'' = None" by (simp add: world_empty_def)
  have there: "files (restart earlier_run) ''todos.json'' = Some sample_text"
    by (simp add: earlier_run_eq restart_def)
  have edited: "files edited_world ''todos.json'' = Some mismatch_text"
    by (simp add: edited_world_def)
  have dec: "Unmarshal json_sample mismatch_text [] = (Some ?e2, sample_todos)"
    by (simp add: json_sample_def sample_text_def mismatch_text_def)
  from main_load_outcomes[of world_empty json_sample None sample_text ?e1 "[]"] missing
  have a: "main_load json_sample None world_empty = (TodoList_zero, world_empty)" by blast
  from main_load_outcomes[of "restart earlier_run" json_sample "Some ?e1" sample_text ?e1 "[]"] there
  have b: "main_load json_sample (Some ?e1) (restart earlier_run)
           = (TodoList_zero, Println (''Error loading file: '' @ Error ?e1) (restart earlier_run))"
    by simp
  from main_load_outcomes[of edited_world json_sample None mismatch_text ?e2 sample_todos] edited dec
  have c: "main_load json_sample None edited_world
           = (TodoList_zero\<lparr>todos := sample_todos\<rparr>,
              Println (''Error loading file: '' @ Error ?e2) edited_world)"
    by simp
  from a b c missing there edited show ?thesis
    by (simp add: Println_def restart_def earlier_run_eq edited_world_def TodoList_zero_def)
qed

subsection \<open>An operation on an absent id\<close>

text \<open>
  Claim C10. When no record of the store has the given id, \<^verbatim>\<open>UpdateTodo\<close> and
  \<^verbatim>\<open>DeleteTodo\<close> return the store as it was: the task sequence, the id counter and the
  flag \<^verbatim>\<open>changed\<close> keep their values. In particular neither sets the flag.
\<close>

theorem absent_id_leaves_store:
  "id' \<notin> ID ` set (todos t) \<Longrightarrow>
   fst (UpdateTodo id' newTitle completed t w) = t \<and> fst (DeleteTodo id' t w) = t"
  by (simp add: UpdateTodo_None DeleteTodo_None range_ID_None)

text \<open>Claim C10 on the store with ids 1 and 2: id 3 is absent, and nothing changes.\<close>

theorem absent_id_leaves_store_witness:
  "3 \<notin> ID ` set (todos two_todos)
   \<and> fst (UpdateTodo 3 ''Pay bills'' True two_todos world_empty) = two_todos
   \<and> fst (DeleteTodo 3 two_todos world_empty) = two_todos"
proof -
  have absent: "3 \<notin> ID ` set (todos two_todos)" by (simp add: two_todos_eq)
  from absent_id_leaves_store[OF absent, of "''Pay bills''" True world_empty] absent
  show ?thesis by simp
qed

end
